theory Spec2Isabelle
  imports Main "HOL-Library.Word" "HOL-Library.Multiset"
begin

section \<open>Data model of duplicates.go\<close>

text \<open>
  The program walks a directory tree, keeps the files that pass a size and a name
  filter, hashes them on a pool of workers and groups their paths by MD5 digest.

  Go's \<open>int64\<close> is a 64-bit word, compared as a signed number (\<open><s\<close>, \<open>\<le>s\<close>).
  An \<open>os.FileInfo\<close> is read through \<open>Name()\<close>, \<open>Size()\<close> and \<open>IsDir()\<close> only; it
  is an interface value and may be nil, so every place that receives one takes a
  \<open>FileInfo option\<close>. The same holds for pointers (\<open>*WalkedFile\<close>, \<open>*regexp.Regexp\<close>).
  The field \<open>file\<close> of \<open>WalkedFile\<close> is written \<open>fileinfo\<close>.
\<close>

type_synonym int64 = "64 word"
type_synonym byte = "8 word"

record FileInfo =
  Name :: string
  Size :: int64
  IsDir :: bool

record WalkedFile =
  path :: string
  fileinfo :: "FileInfo option"

text \<open>
  A compiled regular expression is used through \<open>MatchString\<close> only, so it is modelled
  by its matching predicate. A method call on a nil pointer or nil interface panics.
\<close>

type_synonym Regexp = "string \<Rightarrow> bool"

datatype panic = NilPointerDereference

datatype err = InvalidFileData | ContextCanceled

datatype log_entry =
    FailedToOpenFile string
  | FailedToCalculateHash string
  | ErrorProcessingFile err

text \<open>
  What opening and reading a file to its end gives: \<open>os.Open\<close> fails, or \<open>io.Copy\<close>
  fails, or the bytes of the file arrive.
\<close>

datatype file_read = OpenError | ReadError | Content "byte list"

text \<open>
  One callback of \<open>filepath.Walk\<close>: the path, the entry's \<open>FileInfo\<close> (nil when
  \<open>Lstat\<close> on the entry failed, which is also what the root gets when it does not
  exist) and whether the walk reports an error for the entry.
\<close>

type_synonym walk_entry = "string \<times> FileInfo option \<times> bool"

text \<open>
  The parts of the standard library and of the operating system the program calls:
  \<open>regexp.Compile\<close> (None for a pattern that does not compile), opening and reading a
  file, \<open>fmt.Sprintf("%x", md5.Sum)\<close>, the sequence of callbacks \<open>filepath.Walk\<close>
  makes for a root when every callback returns nil, and \<open>runtime.NumCPU\<close>.
\<close>

record world =
  regexp_Compile :: "string \<Rightarrow> Regexp option"
  readFile :: "string \<Rightarrow> file_read"
  md5hex :: "byte list \<Rightarrow> string"
  filepath_Walk :: "string \<Rightarrow> walk_entry list"
  NumCPU :: nat

text \<open>
  The package-level variables. The map \<open>duplicates.m\<close> is kept as an association list
  with one pair for each key, since Go fixes no iteration order; \<open>logged\<close> collects the
  records written at error level. The progress display (\<open>walkProgress\<close>, \<open>noStats\<close>)
  only prints and is left out.
\<close>

record globals =
  singleThread :: bool
  deleteFlag :: bool
  visitCount :: int64
  fileCount :: int64
  dupCount :: int64
  minSize :: int64
  filenameMatch :: string
  filenameRegex :: "Regexp option"
  duplicates :: "(string \<times> string list) list"
  walkFiles :: "WalkedFile option list"
  logged :: "log_entry list"

section \<open>The filter and the walk\<close>

text \<open>\<open>filenameRegex.MatchString(name)\<close>: a nil receiver panics.\<close>

definition MatchString :: "Regexp option \<Rightarrow> string \<Rightarrow> panic + bool" where
  "MatchString re name =
     (case re of None \<Rightarrow> Inl NilPointerDereference | Some r \<Rightarrow> Inr (r name))"

text \<open>
  \<open>visitFile\<close>, the callback of the walk. The condition is evaluated left to right with
  short-circuit: \<open>f.IsDir()\<close> first (panics on a nil \<open>f\<close>), then the size, then the
  pattern, where the literal \<open>*\<close> is accepted without consulting the regular expression.
  The \<open>err\<close> argument is never read. The function returns nil on every path.
\<close>

definition visitFile :: "globals \<Rightarrow> string \<Rightarrow> FileInfo option \<Rightarrow> bool \<Rightarrow> panic + globals" where
  "visitFile g p fo walk_err =
     (let g1 = g\<lparr>visitCount := visitCount g + 1\<rparr> in
      case fo of
        None \<Rightarrow> Inl NilPointerDereference
      | Some f \<Rightarrow>
          if \<not> IsDir f \<and> minSize g1 <s Size f then
            (if filenameMatch g1 = ''*'' then
               Inr (g1\<lparr>walkFiles := walkFiles g1 @ [Some \<lparr>path = p, fileinfo = Some f\<rparr>]\<rparr>)
             else
               case MatchString (filenameRegex g1) (Name f) of
                 Inl e \<Rightarrow> Inl e
               | Inr True \<Rightarrow>
                   Inr (g1\<lparr>walkFiles := walkFiles g1 @ [Some \<lparr>path = p, fileinfo = Some f\<rparr>]\<rparr>)
               | Inr False \<Rightarrow> Inr g1)
          else Inr g1)"

text \<open>
  \<open>filepath.Walk(root, visitFile)\<close>: the callbacks in order. \<open>visitFile\<close> never returns
  an error, so no entry is skipped by the walk itself; a panic ends the program.
\<close>

fun Walk :: "globals \<Rightarrow> walk_entry list \<Rightarrow> panic + globals" where
  "Walk g [] = Inr g"
| "Walk g ((p, fo, e) # es) =
     (case visitFile g p fo e of Inl x \<Rightarrow> Inl x | Inr g' \<Rightarrow> Walk g' es)"

section \<open>Hashing one file\<close>

text \<open>\<open>duplicates.m[hash] = append(duplicates.m[hash], path)\<close>; a missing key reads as nil.\<close>

fun append_path :: "string \<Rightarrow> string \<Rightarrow> (string \<times> string list) list \<Rightarrow> (string \<times> string list) list" where
  "append_path h p [] = [(h, [p])]"
| "append_path h p ((k, ps) # m) =
     (if k = h then (k, ps @ [p]) # m else (k, ps) # append_path h p m)"

text \<open>
  \<open>scanAndHashFile\<close>. The early return repeats the filter of \<open>visitFile\<close>, negated; then
  \<open>fileCount\<close> is incremented, before the file is opened. A failure to open or to read is
  logged and the function returns; it has no result, so the caller cannot tell a failure
  from a success. On success the path is appended to the group of its digest.
\<close>

definition scanAndHashFile :: "world \<Rightarrow> string \<Rightarrow> FileInfo option \<Rightarrow> globals \<Rightarrow> panic + globals" where
  "scanAndHashFile w p fo g =
     (case fo of
        None \<Rightarrow> Inl NilPointerDereference
      | Some f \<Rightarrow>
          (if IsDir f \<or> Size f <=s minSize g then Inr g
           else
             (case (if filenameMatch g \<noteq> ''*''
                    then map_sum id Not (MatchString (filenameRegex g) (Name f))
                    else Inr False) of
                Inl e \<Rightarrow> Inl e
              | Inr True \<Rightarrow> Inr g
              | Inr False \<Rightarrow>
                  (let g1 = g\<lparr>fileCount := fileCount g + 1\<rparr> in
                   (case readFile w p of
                      OpenError \<Rightarrow> Inr (g1\<lparr>logged := logged g1 @ [FailedToOpenFile p]\<rparr>)
                    | ReadError \<Rightarrow> Inr (g1\<lparr>logged := logged g1 @ [FailedToCalculateHash p]\<rparr>)
                    | Content bs \<Rightarrow>
                        Inr (g1\<lparr>duplicates := append_path (md5hex w bs) p (duplicates g1)\<rparr>))))))"

section \<open>The worker pool of computeHashes\<close>

text \<open>
  \<open>computeHashes\<close> starts \<open>numWorkers\<close> goroutines running \<open>worker\<close>, one goroutine
  that sends \<open>walkFiles\<close> on the channel \<open>jobs\<close> and then closes it, and itself receives
  \<open>len(walkFiles)\<close> values from the channel \<open>results\<close>. The goroutines interleave, so
  the function is modelled by a configuration and one deterministic step for each
  thing a goroutine can do next; a run is a list of such actions (a schedule), and a
  step that is not enabled (a blocked send or receive) has no successor.

  A worker is at the \<open>select\<close> at the top of its loop, or holds a file it has received
  and not yet passed to \<open>scanAndHashFile\<close>, or is at a send on \<open>results\<close> (with the
  value, and whether it returns after the send), or has returned.
\<close>

datatype wstate =
    Selecting
  | Processing string FileInfo
  | Reporting "err option" bool
  | Finished

record workerStats =
  processedFiles :: int64
  totalBytes :: int64
  errors :: int64

record worker =
  wstate :: wstate
  stats :: workerStats

text \<open>
  \<open>tosend\<close> is the rest of the sender's range over \<open>walkFiles\<close>; \<open>jobs\<close> and \<open>results\<close>
  are the buffers of the two channels, both made with capacity \<open>visitCount\<close>;
  \<open>collected\<close> is the loop variable \<open>i\<close> of the collecting loop; \<open>cancelled\<close> says that
  the context is done; \<open>returned\<close> that \<open>computeHashes\<close> has returned; \<open>crashed\<close> that a
  goroutine has panicked, which ends the process.
\<close>

record config =
  shared :: globals
  tosend :: "WalkedFile option list"
  jobs_closed :: bool
  jobs :: "WalkedFile option list"
  results :: "err option list"
  capacity :: nat
  workers :: "worker list"
  collected :: nat
  firstErr :: "err option"
  cancelled :: bool
  returned :: bool
  crashed :: "panic option"

datatype action =
    SenderSend
  | SenderReturn
  | WorkerCtxDone nat
  | WorkerRecv nat
  | WorkerHash nat
  | WorkerSend nat
  | CollectorRecv
  | CollectorReturn

text \<open>
  The sending goroutine: \<open>jobs <- file\<close> when the buffer has room; it returns when
  the range is exhausted, or at \<open>ctx.Done()\<close> when the context is cancelled, and the
  deferred \<open>close(jobs)\<close> runs at its return.
\<close>

definition sender_send :: "config \<Rightarrow> config option" where
  "sender_send c =
     (case tosend c of
        [] \<Rightarrow> None
      | f # rest \<Rightarrow>
          if \<not> jobs_closed c \<and> length (jobs c) < capacity c
          then Some (c\<lparr>tosend := rest, jobs := jobs c @ [f]\<rparr>)
          else None)"

definition sender_return :: "config \<Rightarrow> config option" where
  "sender_return c =
     (if \<not> jobs_closed c \<and> (tosend c = [] \<or> cancelled c)
      then Some (c\<lparr>jobs_closed := True\<rparr>)
      else None)"

text \<open>
  The worker's \<open>select\<close>, first case: the context is done; the worker sends
  \<open>ctx.Err()\<close> and returns.
\<close>

definition worker_ctx_done :: "nat \<Rightarrow> config \<Rightarrow> config option" where
  "worker_ctx_done i c =
     (if i < length (workers c) \<and> wstate (workers c ! i) = Selecting \<and> cancelled c
      then Some (c\<lparr>workers := (workers c)[i := (workers c ! i)\<lparr>wstate := Reporting (Some ContextCanceled) True\<rparr>]\<rparr>)
      else None)"

text \<open>
  The worker's \<open>select\<close>, second case: a receive from \<open>jobs\<close>. A value in the buffer
  is taken; on an empty closed channel the receive gives \<open>ok = false\<close> and the worker
  sends nil and returns; on an empty open channel it blocks. A nil file, or one with
  a nil \<open>FileInfo\<close>, counts an error in the worker's statistics and is reported as an
  error, after which the loop continues.
\<close>

definition worker_recv :: "nat \<Rightarrow> config \<Rightarrow> config option" where
  "worker_recv i c =
     (if i < length (workers c) \<and> wstate (workers c ! i) = Selecting then
        (let wk = workers c ! i in
         case jobs c of
           [] \<Rightarrow>
             if jobs_closed c
             then Some (c\<lparr>workers := (workers c)[i := wk\<lparr>wstate := Reporting None True\<rparr>]\<rparr>)
             else None
         | fo # rest \<Rightarrow>
             (case (case fo of None \<Rightarrow> None
                    | Some x \<Rightarrow> (case fileinfo x of None \<Rightarrow> None | Some f \<Rightarrow> Some (path x, f))) of
                None \<Rightarrow>
                  Some (c\<lparr>jobs := rest,
                          workers := (workers c)[i := wk\<lparr>wstate := Reporting (Some InvalidFileData) False,
                                                        stats := (stats wk)\<lparr>errors := errors (stats wk) + 1\<rparr>\<rparr>]\<rparr>)
              | Some (p, f) \<Rightarrow>
                  Some (c\<lparr>jobs := rest,
                          workers := (workers c)[i := wk\<lparr>wstate := Processing p f\<rparr>]\<rparr>)))
      else None)"

text \<open>
  The worker runs \<open>scanAndHashFile\<close> on the file it holds, adds to \<open>processedFiles\<close>
  and \<open>totalBytes\<close>, and goes on to send nil on \<open>results\<close>, whatever happened to the
  file. \<open>scanAndHashFile\<close> touches the shared variables in atomic operations (the add
  to \<open>fileCount\<close>, the append under the lock); the step takes the call as a whole.
\<close>

definition worker_hash :: "world \<Rightarrow> nat \<Rightarrow> config \<Rightarrow> config option" where
  "worker_hash w i c =
     (if i < length (workers c) then
        (let wk = workers c ! i in
         case wstate wk of
           Processing p f \<Rightarrow>
             (case scanAndHashFile w p (Some f) (shared c) of
                Inl x \<Rightarrow> Some (c\<lparr>crashed := Some x\<rparr>)
              | Inr g' \<Rightarrow>
                  Some (c\<lparr>shared := g',
                          workers := (workers c)[i := wk\<lparr>wstate := Reporting None False,
                                                        stats := (stats wk)\<lparr>processedFiles := processedFiles (stats wk) + 1,
                                                                           totalBytes := totalBytes (stats wk) + Size f\<rparr>\<rparr>]\<rparr>))
         | _ \<Rightarrow> None)
      else None)"

text \<open>The send on \<open>results\<close>, when the buffer has room.\<close>

definition worker_send :: "nat \<Rightarrow> config \<Rightarrow> config option" where
  "worker_send i c =
     (if i < length (workers c) then
        (let wk = workers c ! i in
         case wstate wk of
           Reporting v ret \<Rightarrow>
             if length (results c) < capacity c
             then Some (c\<lparr>results := results c @ [v],
                          workers := (workers c)[i := wk\<lparr>wstate := (if ret then Finished else Selecting)\<rparr>]\<rparr>)
             else None
         | _ \<Rightarrow> None)
      else None)"

text \<open>
  The collecting loop: one receive from \<open>results\<close> for each \<open>i < len(walkFiles)\<close>. The
  first non-nil value is kept and cancels the context; every non-nil value is logged.
  When the loop is over the function returns \<open>firstErr\<close>, and the deferred \<open>cancel()\<close>
  runs.
\<close>

definition collector_recv :: "config \<Rightarrow> config option" where
  "collector_recv c =
     (if \<not> returned c \<and> collected c < length (walkFiles (shared c)) then
        (case results c of
           [] \<Rightarrow> None
         | v # rest \<Rightarrow>
             (case v of
                None \<Rightarrow> Some (c\<lparr>results := rest, collected := collected c + 1\<rparr>)
              | Some e \<Rightarrow>
                  Some (c\<lparr>results := rest, collected := collected c + 1,
                          firstErr := (if firstErr c = None then Some e else firstErr c),
                          cancelled := (if firstErr c = None then True else cancelled c),
                          shared := (shared c)\<lparr>logged := logged (shared c) @ [ErrorProcessingFile e]\<rparr>\<rparr>)))
      else None)"

definition collector_return :: "config \<Rightarrow> config option" where
  "collector_return c =
     (if \<not> returned c \<and> \<not> collected c < length (walkFiles (shared c))
      then Some (c\<lparr>returned := True, cancelled := True\<rparr>)
      else None)"

fun step :: "world \<Rightarrow> action \<Rightarrow> config \<Rightarrow> config option" where
  "step w a c =
     (if crashed c \<noteq> None then None
      else case a of
        SenderSend \<Rightarrow> sender_send c
      | SenderReturn \<Rightarrow> sender_return c
      | WorkerCtxDone i \<Rightarrow> worker_ctx_done i c
      | WorkerRecv i \<Rightarrow> worker_recv i c
      | WorkerHash i \<Rightarrow> worker_hash w i c
      | WorkerSend i \<Rightarrow> worker_send i c
      | CollectorRecv \<Rightarrow> collector_recv c
      | CollectorReturn \<Rightarrow> collector_return c)"

fun run :: "world \<Rightarrow> action list \<Rightarrow> config \<Rightarrow> config option" where
  "run w [] c = Some c"
| "run w (a # as) c = (case step w a c of None \<Rightarrow> None | Some c' \<Rightarrow> run w as c')"

text \<open>
  The configuration in which \<open>computeHashes\<close> starts its goroutines: one worker in
  single-thread mode, \<open>runtime.NumCPU()\<close> otherwise, both channels empty with capacity
  \<open>visitCount\<close> (at least 1 after a walk, which calls \<open>visitFile\<close> for the root).
\<close>

definition numWorkers :: "world \<Rightarrow> globals \<Rightarrow> nat" where
  "numWorkers w g = (if \<not> singleThread g then NumCPU w else 1)"

definition new_worker :: worker where
  "new_worker = \<lparr>wstate = Selecting, stats = \<lparr>processedFiles = 0, totalBytes = 0, errors = 0\<rparr>\<rparr>"

definition start :: "world \<Rightarrow> globals \<Rightarrow> config" where
  "start w g =
     \<lparr>shared = g, tosend = walkFiles g, jobs_closed = False, jobs = [], results = [],
      capacity = unat (visitCount g), workers = replicate (numWorkers w g) new_worker,
      collected = 0, firstErr = None, cancelled = False, returned = False, crashed = None\<rparr>"

text \<open>
  \<open>computeHashes\<close> under a schedule: the configuration the schedule leads to, provided
  the function has returned in it or a goroutine has panicked. The schedule may go on
  after the return, since the goroutines keep running while \<open>main\<close> prints its report.
\<close>

definition computeHashes :: "world \<Rightarrow> action list \<Rightarrow> globals \<Rightarrow> config option" where
  "computeHashes w sched g =
     (case run w sched (start w g) of
        None \<Rightarrow> None
      | Some c \<Rightarrow> if returned c \<or> crashed c \<noteq> None then Some c else None)"

section \<open>main\<close>

text \<open>
  The flags as \<open>flag.Parse\<close> leaves them; \<open>args\<close> are the remaining arguments. The
  process ends early by \<open>os.Exit\<close> with a status, or after the report by \<open>os.Exit(0)\<close>
  (\<open>Report\<close>, with the variables the report is printed from), or by a panic (the Go
  runtime prints the panic and exits with status 2).
\<close>

record flags =
  flag_size :: int64
  flag_name :: string
  flag_singleThread :: bool
  flag_delete :: bool
  flag_h :: bool
  args :: "string list"

datatype outcome = Exit int | Report globals | Crash panic

definition initial_globals :: globals where
  "initial_globals =
     \<lparr>singleThread = False, deleteFlag = False, visitCount = 0, fileCount = 0, dupCount = 0,
      minSize = 0, filenameMatch = ''*'', filenameRegex = None, duplicates = [],
      walkFiles = [], logged = []\<rparr>"

text \<open>The loop of \<open>main\<close> that counts the groups with more than one path.\<close>

fun count_dups :: "(string \<times> string list) list \<Rightarrow> int64 \<Rightarrow> int64" where
  "count_dups [] n = n"
| "count_dups ((k, v) # m) n = count_dups m (if 1 < length v then n + 1 else n)"

text \<open>
  The beginning of \<open>main\<close>, up to the walk: \<open>-h\<close> exits with status 0, a missing
  directory argument with \<open>os.Exit(-1)\<close>. Otherwise the pattern is compiled; the error
  of \<open>regexp.Compile\<close> is assigned to the blank identifier and its result stored as it is.
\<close>

definition startup :: "world \<Rightarrow> flags \<Rightarrow> int + globals" where
  "startup w fl =
     (let g0 = initial_globals\<lparr>minSize := flag_size fl, filenameMatch := flag_name fl,
                               singleThread := flag_singleThread fl, deleteFlag := flag_delete fl\<rparr> in
      if flag_h fl then Inl 0
      else if length (args fl) < 1 then Inl (- 1)
      else Inr (g0\<lparr>filenameRegex := regexp_Compile w (filenameMatch g0)\<rparr>))"

text \<open>
  \<open>main\<close>: after the startup comes the walk from the first argument (its error would
  be logged only), then \<open>computeHashes\<close>, whose result is dropped, then the count of the
  groups; the last statement is \<open>os.Exit(0)\<close>. The printing of the report and the
  deletions under \<open>-delete\<close> come after everything modelled here and are left out.
  The result is None when the schedule is not one in which \<open>computeHashes\<close> returns.
\<close>

definition main :: "world \<Rightarrow> flags \<Rightarrow> action list \<Rightarrow> outcome option" where
  "main w fl sched =
     (case startup w fl of
        Inl status \<Rightarrow> Some (Exit status)
      | Inr g1 \<Rightarrow>
          (case Walk g1 (filepath_Walk w (hd (args fl))) of
             Inl x \<Rightarrow> Some (Crash x)
           | Inr g2 \<Rightarrow>
               (case computeHashes w sched g2 of
                  None \<Rightarrow> None
                | Some c \<Rightarrow>
                    (case crashed c of
                       Some x \<Rightarrow> Some (Crash x)
                     | None \<Rightarrow>
                         Some (Report ((shared c)\<lparr>dupCount := count_dups (duplicates (shared c)) (dupCount (shared c))\<rparr>))))))"

section \<open>A small tree\<close>

text \<open>
  The example of the specification: a directory \<open>/r\<close> with \<open>a.txt\<close> and \<open>b.txt\<close>
  holding \<open>hello\<close> and \<open>c.txt\<close> holding \<open>world\<close>, five bytes each, on a machine with
  two CPUs. The digests are the MD5 sums of these contents (and of the empty file for
  anything else, which is not read below). Of the patterns, \<open>b\<close> compiles and matches
  the names that contain the letter; \<open>*\<close> (nothing to repeat) and \<open>[\<close> (no closing
  bracket) do not compile, and no other pattern is used below.
\<close>

definition hello :: "byte list" where
  "hello = [104, 101, 108, 108, 111]"

definition world_bytes :: "byte list" where
  "world_bytes = [119, 111, 114, 108, 100]"

definition demo_md5hex :: "byte list \<Rightarrow> string" where
  "demo_md5hex bs =
     (if bs = hello then ''5d41402abc4b2a76b9719d911017c592''
      else if bs = world_bytes then ''7d793037a0760186574b0282f2f435e7''
      else ''d41d8cd98f00b204e9800998ecf8427e'')"

definition demo_Compile :: "string \<Rightarrow> Regexp option" where
  "demo_Compile pat = (if pat = ''b'' then Some (\<lambda>name. CHR ''b'' \<in> set name) else None)"

definition demo_readFile :: "string \<Rightarrow> file_read" where
  "demo_readFile p =
     (if p = ''/r/a.txt'' \<or> p = ''/r/b.txt'' then Content hello
      else if p = ''/r/c.txt'' then Content world_bytes
      else OpenError)"

definition dir_r :: FileInfo where
  "dir_r = \<lparr>Name = ''r'', Size = 4096, IsDir = True\<rparr>"

definition a_txt :: FileInfo where
  "a_txt = \<lparr>Name = ''a.txt'', Size = 5, IsDir = False\<rparr>"

definition b_txt :: FileInfo where
  "b_txt = \<lparr>Name = ''b.txt'', Size = 5, IsDir = False\<rparr>"

definition c_txt :: FileInfo where
  "c_txt = \<lparr>Name = ''c.txt'', Size = 5, IsDir = False\<rparr>"

definition dir_e :: FileInfo where
  "dir_e = \<lparr>Name = ''e'', Size = 4096, IsDir = True\<rparr>"

text \<open>
  The walk of \<open>/r\<close>, of the empty directory \<open>/e\<close>, of \<open>/v\<close> where \<open>Lstat\<close> fails on
  the entry \<open>a.txt\<close> (it vanished after the directory was read), and of a root that
  does not exist.
\<close>

definition demo_Walk :: "string \<Rightarrow> walk_entry list" where
  "demo_Walk root =
     (if root = ''/r'' then
        [(''/r'', Some dir_r, False), (''/r/a.txt'', Some a_txt, False),
         (''/r/b.txt'', Some b_txt, False), (''/r/c.txt'', Some c_txt, False)]
      else if root = ''/e'' then [(''/e'', Some dir_e, False)]
      else if root = ''/v'' then
        [(''/v'', Some dir_r, False), (''/v/a.txt'', None, True),
         (''/v/b.txt'', Some b_txt, False)]
      else [(root, None, True)])"

definition demo_world :: world where
  "demo_world =
     \<lparr>regexp_Compile = demo_Compile, readFile = demo_readFile, md5hex = demo_md5hex,
      filepath_Walk = demo_Walk, NumCPU = 2\<rparr>"

definition demo_flags :: flags where
  "demo_flags =
     \<lparr>flag_size = 1, flag_name = ''*'', flag_singleThread = False, flag_delete = False,
      flag_h = False, args = [''/r'']\<rparr>"

text \<open>The variables after the startup with these flags, and after the walk of \<open>/r\<close>.\<close>

definition demo_started :: globals where
  "demo_started = initial_globals\<lparr>minSize := 1\<rparr>"

definition demo_walked :: globals where
  "demo_walked =
     demo_started\<lparr>visitCount := 4,
       walkFiles := [Some \<lparr>path = ''/r/a.txt'', fileinfo = Some a_txt\<rparr>,
                     Some \<lparr>path = ''/r/b.txt'', fileinfo = Some b_txt\<rparr>,
                     Some \<lparr>path = ''/r/c.txt'', fileinfo = Some c_txt\<rparr>]\<rparr>"

text \<open>
  Two schedules over \<open>/r\<close>. In the first, with two workers, worker 0 takes \<open>a.txt\<close> and
  worker 1 takes \<open>b.txt\<close>; worker 0 finishes \<open>a.txt\<close> and \<open>c.txt\<close>, finds \<open>jobs\<close> closed
  and empty and sends the nil of its return; the collecting loop receives three values
  and returns. Worker 1 has not yet run \<open>scanAndHashFile\<close>. The second is the order of
  events with one worker.
\<close>

definition early_return_schedule :: "action list" where
  "early_return_schedule =
     [SenderSend, SenderSend, SenderSend, SenderReturn,
      WorkerRecv 0, WorkerRecv 1,
      WorkerHash 0, WorkerSend 0,
      WorkerRecv 0, WorkerHash 0, WorkerSend 0,
      WorkerRecv 0, WorkerSend 0,
      CollectorRecv, CollectorRecv, CollectorRecv, CollectorReturn]"

definition sequential_schedule :: "action list" where
  "sequential_schedule =
     [SenderSend, SenderSend, SenderSend, SenderReturn,
      WorkerRecv 0, WorkerHash 0, WorkerSend 0,
      WorkerRecv 0, WorkerHash 0, WorkerSend 0,
      WorkerRecv 0, WorkerHash 0, WorkerSend 0,
      CollectorRecv, CollectorRecv, CollectorRecv, CollectorReturn]"

section \<open>Quantities read off a configuration\<close>

text \<open>
  The paths of a list of queued files, the paths held by workers that have received
  a file and not yet hashed it, and all paths in the index. The program has two
  counters of its own, \<open>visitCount\<close> and \<open>fileCount\<close>; the numbers of files hashed, failed
  and filtered out are derived: the paths in the index, the failures logged by
  \<open>scanAndHashFile\<close>, and the visits that added nothing to \<open>walkFiles\<close>.
\<close>

fun paths_of :: "WalkedFile option list \<Rightarrow> string list" where
  "paths_of [] = []"
| "paths_of (None # xs) = paths_of xs"
| "paths_of (Some x # xs) = path x # paths_of xs"

fun holding :: "wstate \<Rightarrow> string list" where
  "holding (Processing p f) = [p]"
| "holding _ = []"

definition in_flight :: "config \<Rightarrow> string list" where
  "in_flight c = concat (map holding (map wstate (workers c)))"

definition index_paths :: "globals \<Rightarrow> string list" where
  "index_paths g = concat (map snd (duplicates g))"

fun is_file_failure :: "log_entry \<Rightarrow> bool" where
  "is_file_failure (FailedToOpenFile p) = True"
| "is_file_failure (FailedToCalculateHash p) = True"
| "is_file_failure (ErrorProcessingFile e) = False"

definition hashed :: "globals \<Rightarrow> nat" where
  "hashed g = length (index_paths g)"

definition errored :: "globals \<Rightarrow> nat" where
  "errored g = length (filter is_file_failure (logged g))"

definition skipped :: "globals \<Rightarrow> nat" where
  "skipped g = unat (visitCount g) - length (walkFiles g)"

text \<open>
  The condition of \<open>visitFile\<close> at a file for which it evaluates, without a panic, to
  true: the files that are dispatched.
\<close>

definition passes_filter :: "globals \<Rightarrow> FileInfo \<Rightarrow> bool" where
  "passes_filter g f =
     (\<not> IsDir f \<and> minSize g <s Size f \<and>
      (filenameMatch g = ''*'' \<or> (case filenameRegex g of None \<Rightarrow> False | Some re \<Rightarrow> re (Name f))))"

text \<open>
  What \<open>main\<close> reports from after the two schedules over \<open>/r\<close>, and the same tree when
  \<open>a.txt\<close> has been removed between the walk and the hashing.
\<close>

definition demo_early_report :: globals where
  "demo_early_report =
     demo_walked\<lparr>fileCount := 2,
       duplicates := [(''5d41402abc4b2a76b9719d911017c592'', [''/r/a.txt'']),
                      (''7d793037a0760186574b0282f2f435e7'', [''/r/c.txt''])]\<rparr>"

definition demo_sequential_report :: globals where
  "demo_sequential_report =
     demo_walked\<lparr>singleThread := True, fileCount := 3, dupCount := 1,
       duplicates := [(''5d41402abc4b2a76b9719d911017c592'', [''/r/a.txt'', ''/r/b.txt'']),
                      (''7d793037a0760186574b0282f2f435e7'', [''/r/c.txt''])]\<rparr>"



text \<open>
  For the invariants of the pool: the paths that are still to be hashed (not yet
  sent, in the buffer of \<open>jobs\<close>, or held by a worker) together with the paths in the
  index, as a multiset; and the property that every path in the index is filed under
  the digest of the bytes read from it.
\<close>

definition accounted :: "config \<Rightarrow> string multiset" where
  "accounted c =
     mset (paths_of (tosend c)) + mset (paths_of (jobs c)) + mset (in_flight c) +
     mset (index_paths (shared c))"

definition filed_by_digest :: "world \<Rightarrow> (string \<times> string list) list \<Rightarrow> bool" where
  "filed_by_digest w m =
     list_all (\<lambda>(k, ps). list_all (\<lambda>p. case readFile w p of Content bs \<Rightarrow> k = md5hex w bs | _ \<Rightarrow> False) ps) m"

text \<open>
  One step of the pool never adds to the accounted paths, and it leaves the index as
  it is or appends one path whose bytes were read, under their digest. The invariant
  of the pool, relative to the multiset \<open>M\<close> of paths the walk delivered.
\<close>

definition grows :: "world \<Rightarrow> config \<Rightarrow> config \<Rightarrow> bool" where
  "grows w c c' \<longleftrightarrow>
     accounted c' \<subseteq># accounted c \<and>
     (duplicates (shared c') = duplicates (shared c) \<or>
      (\<exists>p bs. readFile w p = Content bs \<and>
         duplicates (shared c') = append_path (md5hex w bs) p (duplicates (shared c))))"

definition pool_inv :: "world \<Rightarrow> string multiset \<Rightarrow> config \<Rightarrow> bool" where
  "pool_inv w M c \<longleftrightarrow>
     accounted c \<subseteq># M \<and> distinct (map fst (duplicates (shared c))) \<and>
     filed_by_digest w (duplicates (shared c))"

text \<open>The last configuration of the single-thread run over \<open>/r\<close>.\<close>

definition demo_sequential_final :: config where
  "demo_sequential_final =
     \<lparr>shared = demo_sequential_report\<lparr>dupCount := 0\<rparr>, tosend = [], jobs_closed = True, jobs = [],
      results = [], capacity = 4,
      workers = [\<lparr>wstate = Selecting, stats = \<lparr>processedFiles = 3, totalBytes = 15, errors = 0\<rparr>\<rparr>],
      collected = 3, firstErr = None, cancelled = True, returned = True, crashed = None\<rparr>"

text \<open>
  The files processed in a run: the paths on which a worker has run \<open>scanAndHashFile\<close>
  to its end, in the order of the schedule. A path is filed under a key when the
  group of that key holds it. A queued file is well formed when it is what
  \<open>visitFile\<close> appends: a file with a \<open>FileInfo\<close> that passes the filter; a configuration is
  well formed when every file not yet sent, in the buffer of \<open>jobs\<close> or held by a worker
  is. The paths still to be hashed are the pending ones.
\<close>

fun hashed_files :: "world \<Rightarrow> action list \<Rightarrow> config \<Rightarrow> string list" where
  "hashed_files w [] c = []"
| "hashed_files w (a # as) c =
     (case step w a c of
        None \<Rightarrow> []
      | Some c' \<Rightarrow>
          (case a of
             WorkerHash i \<Rightarrow> (if crashed c' = None then holding (wstate (workers c ! i)) else [])
           | _ \<Rightarrow> []) @ hashed_files w as c')"

definition filed_under :: "(string \<times> string list) list \<Rightarrow> string \<Rightarrow> string \<Rightarrow> bool" where
  "filed_under m k p = list_ex (\<lambda>(k', ps). k' = k \<and> p \<in> set ps) m"

fun queued_ok :: "globals \<Rightarrow> WalkedFile option \<Rightarrow> bool" where
  "queued_ok g None = False"
| "queued_ok g (Some x) = (case fileinfo x of None \<Rightarrow> False | Some f \<Rightarrow> passes_filter g f)"

fun held_ok :: "globals \<Rightarrow> wstate \<Rightarrow> bool" where
  "held_ok g (Processing p f) = passes_filter g f"
| "held_ok g _ = True"

definition wellformed :: "config \<Rightarrow> bool" where
  "wellformed c \<longleftrightarrow>
     list_all (queued_ok (shared c)) (tosend c) \<and>
     list_all (queued_ok (shared c)) (jobs c) \<and>
     list_all (held_ok (shared c)) (map wstate (workers c))"

definition pending :: "config \<Rightarrow> string list" where
  "pending c = paths_of (tosend c) @ paths_of (jobs c) @ in_flight c"

section \<open>Evaluation on the small tree\<close>

lemma replicate_two: "replicate 2 x = [x, x]"
  by (simp add: numeral_2_eq_2)

declare step.simps [simp del]

lemmas step_defs =
  step.simps sender_send_def sender_return_def worker_ctx_done_def worker_recv_def worker_hash_def
  worker_send_def collector_recv_def collector_return_def

lemmas demo_defs =
  demo_world_def demo_readFile_def demo_md5hex_def demo_Walk_def demo_Compile_def hello_def
  world_bytes_def a_txt_def b_txt_def c_txt_def dir_r_def dir_e_def demo_flags_def
  demo_started_def demo_walked_def initial_globals_def

lemma demo_startup: "startup demo_world demo_flags = Inr demo_started"
  by (simp add: startup_def demo_defs)

lemma demo_walk: "Walk demo_started (filepath_Walk demo_world ''/r'') = Inr demo_walked"
  by (simp add: demo_defs visitFile_def word_sless_alt)

lemma demo_early_run:
  "run demo_world early_return_schedule (start demo_world demo_walked) =
     Some \<lparr>shared = demo_early_report, tosend = [], jobs_closed = True, jobs = [], results = [],
           capacity = 4,
           workers = [\<lparr>wstate = Finished, stats = \<lparr>processedFiles = 2, totalBytes = 10, errors = 0\<rparr>\<rparr>,
                      \<lparr>wstate = Processing ''/r/b.txt'' b_txt, stats = \<lparr>processedFiles = 0, totalBytes = 0, errors = 0\<rparr>\<rparr>],
           collected = 3, firstErr = None, cancelled = True, returned = True, crashed = None\<rparr>"
  by (simp add: early_return_schedule_def start_def numWorkers_def new_worker_def step_defs
      scanAndHashFile_def demo_defs demo_early_report_def word_sle_eq replicate_two)

lemma demo_sequential_run:
  "run demo_world sequential_schedule (start demo_world (demo_walked\<lparr>singleThread := True\<rparr>)) =
     Some demo_sequential_final"
  by (simp add: sequential_schedule_def start_def numWorkers_def new_worker_def step_defs
      scanAndHashFile_def demo_defs demo_sequential_report_def demo_sequential_final_def word_sle_eq)

lemma demo_early_main:
  "main demo_world demo_flags early_return_schedule = Some (Report demo_early_report)"
  unfolding main_def demo_startup
  apply (simp add: demo_flags_def)
  unfolding demo_walk
  apply simp
  unfolding computeHashes_def demo_early_run
  by (simp add: demo_early_report_def demo_walked_def demo_started_def initial_globals_def)

lemma demo_sequential_startup:
  "startup demo_world (demo_flags\<lparr>flag_singleThread := True\<rparr>) = Inr (demo_started\<lparr>singleThread := True\<rparr>)"
  by (simp add: startup_def demo_defs)

lemma demo_sequential_walk:
  "Walk (demo_started\<lparr>singleThread := True\<rparr>) (filepath_Walk demo_world ''/r'') =
     Inr (demo_walked\<lparr>singleThread := True\<rparr>)"
  by (simp add: demo_defs visitFile_def word_sless_alt)

lemma demo_sequential_main:
  "main demo_world (demo_flags\<lparr>flag_singleThread := True\<rparr>) sequential_schedule =
     Some (Report demo_sequential_report)"
  unfolding main_def demo_sequential_startup
  apply (simp add: demo_flags_def)
  unfolding demo_sequential_walk
  apply simp
  unfolding computeHashes_def demo_sequential_run
  by (simp add: demo_sequential_final_def demo_sequential_report_def demo_walked_def
      demo_started_def initial_globals_def)

section \<open>The size filter\<close>

text \<open>
  C9. A file whose size equals the configured minimum is filtered out: \<open>visitFile\<close>
  does not add it to \<open>walkFiles\<close> (it only counts the visit), and \<open>scanAndHashFile\<close>, were
  it handed such a file, returns without touching any variable. The filter admits a
  file only when its size is strictly larger than the minimum: whenever \<open>visitFile\<close>
  adds to \<open>walkFiles\<close>, and whenever \<open>scanAndHashFile\<close> changes anything, the size of the
  file is above the minimum.
\<close>

theorem size_equal_minSize_filtered:
  "(Size f = minSize g \<longrightarrow>
      visitFile g p (Some f) e = Inr (g\<lparr>visitCount := visitCount g + 1\<rparr>) \<and>
      scanAndHashFile w p (Some f) g = Inr g \<and>
      \<not> passes_filter g f) \<and>
   (visitFile g p (Some f) e = Inr g' \<and> walkFiles g' \<noteq> walkFiles g \<longrightarrow> minSize g <s Size f) \<and>
   (scanAndHashFile w p (Some f) g = Inr g'' \<and> g'' \<noteq> g \<longrightarrow> minSize g <s Size f)"
proof -
  have eq: "Size f = minSize g \<longrightarrow>
      visitFile g p (Some f) e = Inr (g\<lparr>visitCount := visitCount g + 1\<rparr>) \<and>
      scanAndHashFile w p (Some f) g = Inr g \<and> \<not> passes_filter g f"
    by (simp add: visitFile_def scanAndHashFile_def passes_filter_def)
  have visit: "visitFile g p (Some f) e = Inr g' \<and> walkFiles g' \<noteq> walkFiles g \<longrightarrow> minSize g <s Size f"
    by (auto simp add: visitFile_def Let_def split: if_splits)
  have scan: "scanAndHashFile w p (Some f) g = Inr g'' \<and> g'' \<noteq> g \<longrightarrow> minSize g <s Size f"
    by (auto simp add: scanAndHashFile_def signed.not_le split: if_splits)
  from eq visit scan show ?thesis by blast
qed

text \<open>
  The file \<open>a.txt\<close> of five bytes: filtered out under a minimum size of five,
  dispatched and hashed under a minimum size of one.
\<close>

theorem size_equal_minSize_filtered_witness:
  "Size a_txt = minSize (demo_started\<lparr>minSize := 5\<rparr>) \<and>
   visitFile (demo_started\<lparr>minSize := 5\<rparr>) ''/r/a.txt'' (Some a_txt) False =
     Inr (demo_started\<lparr>minSize := 5, visitCount := 1\<rparr>) \<and>
   scanAndHashFile demo_world ''/r/a.txt'' (Some a_txt) (demo_started\<lparr>minSize := 5\<rparr>) =
     Inr (demo_started\<lparr>minSize := 5\<rparr>) \<and>
   \<not> passes_filter (demo_started\<lparr>minSize := 5\<rparr>) a_txt \<and>
   visitFile demo_started ''/r/a.txt'' (Some a_txt) False =
     Inr (demo_started\<lparr>visitCount := 1,
            walkFiles := [Some \<lparr>path = ''/r/a.txt'', fileinfo = Some a_txt\<rparr>]\<rparr>) \<and>
   walkFiles (demo_started\<lparr>visitCount := 1,
            walkFiles := [Some \<lparr>path = ''/r/a.txt'', fileinfo = Some a_txt\<rparr>]\<rparr>) \<noteq> walkFiles demo_started \<and>
   scanAndHashFile demo_world ''/r/a.txt'' (Some a_txt) demo_started =
     Inr (demo_started\<lparr>fileCount := 1,
            duplicates := [(''5d41402abc4b2a76b9719d911017c592'', [''/r/a.txt''])]\<rparr>) \<and>
   demo_started\<lparr>fileCount := 1,
            duplicates := [(''5d41402abc4b2a76b9719d911017c592'', [''/r/a.txt''])]\<rparr> \<noteq> demo_started \<and>
   minSize demo_started <s Size a_txt"
  using size_equal_minSize_filtered
          [of a_txt "demo_started\<lparr>minSize := 5\<rparr>" "''/r/a.txt''" False demo_world]
        size_equal_minSize_filtered
          [of a_txt demo_started "''/r/a.txt''" False demo_world
              "demo_started\<lparr>visitCount := 1,
                 walkFiles := [Some \<lparr>path = ''/r/a.txt'', fileinfo = Some a_txt\<rparr>]\<rparr>"
              "demo_started\<lparr>fileCount := 1,
                 duplicates := [(''5d41402abc4b2a76b9719d911017c592'', [''/r/a.txt''])]\<rparr>"]
  by (simp add: a_txt_def demo_started_def initial_globals_def visitFile_def scanAndHashFile_def
      demo_world_def demo_readFile_def demo_md5hex_def hello_def word_sless_alt word_sle_eq)

section \<open>The return of computeHashes\<close>

text \<open>
  C1. The claim is that \<open>computeHashes\<close> returns only after every dispatched file has
  reported once. The collecting loop counts \<open>len(walkFiles)\<close> values on \<open>results\<close>, but a
  worker also sends a value when it returns. On the tree \<open>/r\<close> with two workers there is
  a schedule after which \<open>computeHashes\<close> has returned, having collected three values,
  while \<open>b.txt\<close> is still held by worker 1: it is in no group and has logged nothing.
\<close>

theorem computeHashes_returns_with_file_in_flight:
  "map_option returned (computeHashes demo_world early_return_schedule demo_walked) = Some True \<and>
   map_option collected (computeHashes demo_world early_return_schedule demo_walked) = Some 3 \<and>
   map_option in_flight (computeHashes demo_world early_return_schedule demo_walked) = Some [''/r/b.txt''] \<and>
   map_option (index_paths \<circ> shared) (computeHashes demo_world early_return_schedule demo_walked) =
     Some [''/r/a.txt'', ''/r/c.txt''] \<and>
   map_option (logged \<circ> shared) (computeHashes demo_world early_return_schedule demo_walked) = Some []"
  unfolding computeHashes_def demo_early_run
  by (simp add: in_flight_def index_paths_def demo_early_report_def
      demo_walked_def demo_started_def initial_globals_def)

text \<open>
  C3. The claim is that at the end of every run visited = hashed + skipped + errored,
  each file that passes the filter counting once as hashed or as errored. The program
  keeps \<open>visitCount\<close> and \<open>fileCount\<close>; the other three numbers are read off the index,
  the log and \<open>walkFiles\<close>. After the schedule above \<open>main\<close> reports with four entries
  visited, one filtered out (the directory), two paths in the index and no failure
  logged: \<open>b.txt\<close> passed the filter and is neither hashed nor errored.
\<close>

theorem counters_after_early_return:
  "main demo_world demo_flags early_return_schedule = Some (Report demo_early_report) \<and>
   unat (visitCount demo_early_report) = 4 \<and>
   length (walkFiles demo_early_report) = 3 \<and>
   skipped demo_early_report = 1 \<and>
   hashed demo_early_report = 2 \<and>
   errored demo_early_report = 0 \<and>
   fileCount demo_early_report = 2"
  unfolding demo_early_main
  by (simp add: demo_early_report_def demo_walked_def demo_started_def initial_globals_def
      hashed_def skipped_def errored_def index_paths_def)

text \<open>
  C4. The claim is that a run with one worker and a run with several produce the same
  index up to the order within a group. On \<open>/r\<close> the run in single-thread mode reports
  the group of \<open>a.txt\<close> and \<open>b.txt\<close> and counts one duplicate; the run with two workers
  under the schedule above reports \<open>a.txt\<close> alone under that digest and counts none.
\<close>

theorem single_thread_and_pool_reports_differ:
  "main demo_world (demo_flags\<lparr>flag_singleThread := True\<rparr>) sequential_schedule =
     Some (Report demo_sequential_report) \<and>
   main demo_world demo_flags early_return_schedule = Some (Report demo_early_report) \<and>
   duplicates demo_sequential_report =
     [(''5d41402abc4b2a76b9719d911017c592'', [''/r/a.txt'', ''/r/b.txt'']),
      (''7d793037a0760186574b0282f2f435e7'', [''/r/c.txt''])] \<and>
   duplicates demo_early_report =
     [(''5d41402abc4b2a76b9719d911017c592'', [''/r/a.txt'']),
      (''7d793037a0760186574b0282f2f435e7'', [''/r/c.txt''])] \<and>
   dupCount demo_sequential_report = 1 \<and>
   dupCount demo_early_report = 0"
  unfolding demo_early_main demo_sequential_main
  by (simp add: demo_early_report_def demo_sequential_report_def demo_walked_def demo_started_def
      initial_globals_def)

section \<open>Errors of the walk and of the startup\<close>

text \<open>
  C6. The claim is that an entry for which the walk reports an error is logged and
  skipped and the walk goes on. \<open>visitFile\<close> never reads its \<open>err\<close> argument: with or
  without an error it does the same, and logs nothing. When \<open>Lstat\<close> failed on the
  entry, its \<open>FileInfo\<close> is nil and \<open>f.IsDir()\<close> panics: in \<open>/v\<close> the entry \<open>b.txt\<close> that
  follows the vanished \<open>a.txt\<close> is never visited, and the process ends by the panic
  under every schedule.
\<close>

theorem walk_error_entry_panics:
  "Walk demo_started (filepath_Walk demo_world ''/v'') = Inl NilPointerDereference \<and>
   main demo_world (demo_flags\<lparr>args := [''/v'']\<rparr>) sched = Some (Crash NilPointerDereference) \<and>
   visitFile g p fo True = visitFile g p fo False"
  by (simp add: main_def startup_def demo_defs visitFile_def word_sless_alt)

text \<open>
  C7. The claim is that an invalid pattern or a missing root is reported and ends the
  process with a non-zero status before any scanning. The pattern \<open>[\<close> does not
  compile; on the empty directory \<open>/e\<close> the program walks the tree, runs \<open>computeHashes\<close>
  and reports as after any other run, ending in \<open>os.Exit(0)\<close>; on \<open>/r\<close> the walk has
  begun when the nil \<open>filenameRegex\<close> panics at the first candidate file. A root that
  does not exist is not checked either: the walk hands \<open>visitFile\<close> a nil \<open>FileInfo\<close> and
  the process ends by that panic.
\<close>

theorem invalid_pattern_not_rejected:
  "regexp_Compile demo_world ''['' = None \<and>
   main demo_world (demo_flags\<lparr>flag_name := ''['', args := [''/e'']\<rparr>) [CollectorReturn] =
     Some (Report (initial_globals\<lparr>minSize := 1, filenameMatch := ''['', visitCount := 1\<rparr>)) \<and>
   main demo_world (demo_flags\<lparr>flag_name := ''[''\<rparr>) sched = Some (Crash NilPointerDereference) \<and>
   main demo_world (demo_flags\<lparr>args := [''/nowhere'']\<rparr>) sched = Some (Crash NilPointerDereference)"
  by (simp add: main_def startup_def demo_defs visitFile_def word_sless_alt MatchString_def
      computeHashes_def start_def numWorkers_def new_worker_def step_defs replicate_two)

section \<open>The name pattern\<close>

text \<open>
  C10. The pattern is a regular expression with one exception. When the pattern is
  the literal \<open>*\<close>, neither \<open>visitFile\<close> nor \<open>scanAndHashFile\<close> consults \<open>filenameRegex\<close>:
  \<open>visitFile\<close> decides by directory and size alone, and \<open>scanAndHashFile\<close> goes on to
  count, open, read and file every file that passes the size test. Otherwise, for a
  file that passes the size test, the compiled expression decides in both functions:
  on a match \<open>visitFile\<close> dispatches the file and \<open>scanAndHashFile\<close> hashes it, on a
  mismatch \<open>visitFile\<close> only counts the visit and \<open>scanAndHashFile\<close> returns at once, and
  a nil expression panics in both. The startup does not reject a pattern: past \<open>-h\<close>
  and the argument check it always goes on, with whatever \<open>regexp.Compile\<close> returned
  (nil for a pattern that does not compile) stored in \<open>filenameRegex\<close>.
\<close>

theorem pattern_is_regexp_except_star:
  "(filenameMatch g = ''*'' \<longrightarrow>
      visitFile g p (Some f) e =
        (if \<not> IsDir f \<and> minSize g <s Size f
         then Inr (g\<lparr>visitCount := visitCount g + 1,
                      walkFiles := walkFiles g @ [Some \<lparr>path = p, fileinfo = Some f\<rparr>]\<rparr>)
         else Inr (g\<lparr>visitCount := visitCount g + 1\<rparr>)) \<and>
      scanAndHashFile w p (Some f) g =
        (if IsDir f \<or> Size f <=s minSize g then Inr g
         else (case readFile w p of
                 OpenError \<Rightarrow>
                   Inr (g\<lparr>fileCount := fileCount g + 1, logged := logged g @ [FailedToOpenFile p]\<rparr>)
               | ReadError \<Rightarrow>
                   Inr (g\<lparr>fileCount := fileCount g + 1, logged := logged g @ [FailedToCalculateHash p]\<rparr>)
               | Content bs \<Rightarrow>
                   Inr (g\<lparr>fileCount := fileCount g + 1,
                          duplicates := append_path (md5hex w bs) p (duplicates g)\<rparr>)))) \<and>
   (filenameMatch g' \<noteq> ''*'' \<and> \<not> IsDir f' \<and> minSize g' <s Size f' \<longrightarrow>
      visitFile g' p' (Some f') e' =
        (case filenameRegex g' of
           None \<Rightarrow> Inl NilPointerDereference
         | Some re \<Rightarrow>
             if re (Name f')
             then Inr (g'\<lparr>visitCount := visitCount g' + 1,
                           walkFiles := walkFiles g' @ [Some \<lparr>path = p', fileinfo = Some f'\<rparr>]\<rparr>)
             else Inr (g'\<lparr>visitCount := visitCount g' + 1\<rparr>)) \<and>
      scanAndHashFile w p' (Some f') g' =
        (case filenameRegex g' of
           None \<Rightarrow> Inl NilPointerDereference
         | Some re \<Rightarrow>
             if re (Name f')
             then (case readFile w p' of
                     OpenError \<Rightarrow>
                       Inr (g'\<lparr>fileCount := fileCount g' + 1, logged := logged g' @ [FailedToOpenFile p']\<rparr>)
                   | ReadError \<Rightarrow>
                       Inr (g'\<lparr>fileCount := fileCount g' + 1, logged := logged g' @ [FailedToCalculateHash p']\<rparr>)
                   | Content bs \<Rightarrow>
                       Inr (g'\<lparr>fileCount := fileCount g' + 1,
                               duplicates := append_path (md5hex w bs) p' (duplicates g')\<rparr>))
             else Inr g')) \<and>
   (\<not> flag_h fl \<and> args fl \<noteq> [] \<longrightarrow>
      startup w fl =
        Inr (initial_globals\<lparr>minSize := flag_size fl, filenameMatch := flag_name fl,
                              singleThread := flag_singleThread fl, deleteFlag := flag_delete fl,
                              filenameRegex := regexp_Compile w (flag_name fl)\<rparr>))"
proof -
  have star_visit: "filenameMatch g = ''*'' \<Longrightarrow>
      visitFile g p (Some f) e =
        (if \<not> IsDir f \<and> minSize g <s Size f
         then Inr (g\<lparr>visitCount := visitCount g + 1,
                      walkFiles := walkFiles g @ [Some \<lparr>path = p, fileinfo = Some f\<rparr>]\<rparr>)
         else Inr (g\<lparr>visitCount := visitCount g + 1\<rparr>))"
    by (simp add: visitFile_def)
  have star_scan: "filenameMatch g = ''*'' \<Longrightarrow>
      scanAndHashFile w p (Some f) g =
        (if IsDir f \<or> Size f <=s minSize g then Inr g
         else (case readFile w p of
                 OpenError \<Rightarrow>
                   Inr (g\<lparr>fileCount := fileCount g + 1, logged := logged g @ [FailedToOpenFile p]\<rparr>)
               | ReadError \<Rightarrow>
                   Inr (g\<lparr>fileCount := fileCount g + 1, logged := logged g @ [FailedToCalculateHash p]\<rparr>)
               | Content bs \<Rightarrow>
                   Inr (g\<lparr>fileCount := fileCount g + 1,
                          duplicates := append_path (md5hex w bs) p (duplicates g)\<rparr>)))"
    by (simp add: scanAndHashFile_def split: file_read.splits)
  have re_visit: "filenameMatch g' \<noteq> ''*'' \<and> \<not> IsDir f' \<and> minSize g' <s Size f' \<Longrightarrow>
      visitFile g' p' (Some f') e' =
        (case filenameRegex g' of
           None \<Rightarrow> Inl NilPointerDereference
         | Some re \<Rightarrow>
             if re (Name f')
             then Inr (g'\<lparr>visitCount := visitCount g' + 1,
                           walkFiles := walkFiles g' @ [Some \<lparr>path = p', fileinfo = Some f'\<rparr>]\<rparr>)
             else Inr (g'\<lparr>visitCount := visitCount g' + 1\<rparr>))"
    by (simp add: visitFile_def MatchString_def split: option.splits)
  have re_scan: "filenameMatch g' \<noteq> ''*'' \<and> \<not> IsDir f' \<and> minSize g' <s Size f' \<Longrightarrow>
      scanAndHashFile w p' (Some f') g' =
        (case filenameRegex g' of
           None \<Rightarrow> Inl NilPointerDereference
         | Some re \<Rightarrow>
             if re (Name f')
             then (case readFile w p' of
                     OpenError \<Rightarrow>
                       Inr (g'\<lparr>fileCount := fileCount g' + 1, logged := logged g' @ [FailedToOpenFile p']\<rparr>)
                   | ReadError \<Rightarrow>
                       Inr (g'\<lparr>fileCount := fileCount g' + 1, logged := logged g' @ [FailedToCalculateHash p']\<rparr>)
                   | Content bs \<Rightarrow>
                       Inr (g'\<lparr>fileCount := fileCount g' + 1,
                               duplicates := append_path (md5hex w bs) p' (duplicates g')\<rparr>))
             else Inr g')"
    by (auto simp add: scanAndHashFile_def MatchString_def signed.not_le [symmetric]
        split: option.splits file_read.splits)
  have start: "\<not> flag_h fl \<and> args fl \<noteq> [] \<Longrightarrow>
      startup w fl =
        Inr (initial_globals\<lparr>minSize := flag_size fl, filenameMatch := flag_name fl,
                              singleThread := flag_singleThread fl, deleteFlag := flag_delete fl,
                              filenameRegex := regexp_Compile w (flag_name fl)\<rparr>)"
    by (simp add: startup_def)
  from star_visit star_scan re_visit re_scan start show ?thesis by blast
qed

text \<open>
  With the default pattern and a nil expression \<open>a.txt\<close> is dispatched and hashed;
  under the pattern \<open>b\<close> the compiled expression filters \<open>a.txt\<close> out and lets \<open>b.txt\<close>
  through; the startup with the pattern \<open>[\<close> goes on with a nil expression.
\<close>

theorem pattern_is_regexp_except_star_witness:
  "filenameMatch demo_started = ''*'' \<and> filenameRegex demo_started = None \<and>
   visitFile demo_started ''/r/a.txt'' (Some a_txt) False =
     Inr (demo_started\<lparr>visitCount := 1,
            walkFiles := [Some \<lparr>path = ''/r/a.txt'', fileinfo = Some a_txt\<rparr>]\<rparr>) \<and>
   scanAndHashFile demo_world ''/r/a.txt'' (Some a_txt) demo_started =
     Inr (demo_started\<lparr>fileCount := 1,
            duplicates := [(''5d41402abc4b2a76b9719d911017c592'', [''/r/a.txt''])]\<rparr>) \<and>
   filenameMatch (demo_started\<lparr>filenameMatch := ''b'', filenameRegex := demo_Compile ''b''\<rparr>) \<noteq> ''*'' \<and>
   \<not> IsDir a_txt \<and>
   minSize (demo_started\<lparr>filenameMatch := ''b'', filenameRegex := demo_Compile ''b''\<rparr>) <s Size a_txt \<and>
   visitFile (demo_started\<lparr>filenameMatch := ''b'', filenameRegex := demo_Compile ''b''\<rparr>)
       ''/r/a.txt'' (Some a_txt) False =
     Inr (demo_started\<lparr>filenameMatch := ''b'', filenameRegex := demo_Compile ''b'', visitCount := 1\<rparr>) \<and>
   scanAndHashFile demo_world ''/r/a.txt'' (Some a_txt)
       (demo_started\<lparr>filenameMatch := ''b'', filenameRegex := demo_Compile ''b''\<rparr>) =
     Inr (demo_started\<lparr>filenameMatch := ''b'', filenameRegex := demo_Compile ''b''\<rparr>) \<and>
   \<not> IsDir b_txt \<and>
   minSize (demo_started\<lparr>filenameMatch := ''b'', filenameRegex := demo_Compile ''b''\<rparr>) <s Size b_txt \<and>
   visitFile (demo_started\<lparr>filenameMatch := ''b'', filenameRegex := demo_Compile ''b''\<rparr>)
       ''/r/b.txt'' (Some b_txt) False =
     Inr (demo_started\<lparr>filenameMatch := ''b'', filenameRegex := demo_Compile ''b'', visitCount := 1,
            walkFiles := [Some \<lparr>path = ''/r/b.txt'', fileinfo = Some b_txt\<rparr>]\<rparr>) \<and>
   scanAndHashFile demo_world ''/r/b.txt'' (Some b_txt)
       (demo_started\<lparr>filenameMatch := ''b'', filenameRegex := demo_Compile ''b''\<rparr>) =
     Inr (demo_started\<lparr>filenameMatch := ''b'', filenameRegex := demo_Compile ''b'', fileCount := 1,
            duplicates := [(''5d41402abc4b2a76b9719d911017c592'', [''/r/b.txt''])]\<rparr>) \<and>
   \<not> flag_h (demo_flags\<lparr>flag_name := ''[''\<rparr>) \<and>
   args (demo_flags\<lparr>flag_name := ''[''\<rparr>) \<noteq> [] \<and>
   regexp_Compile demo_world ''['' = None \<and>
   startup demo_world (demo_flags\<lparr>flag_name := ''[''\<rparr>) =
     Inr (demo_started\<lparr>filenameMatch := ''['', filenameRegex := None\<rparr>)"
  using pattern_is_regexp_except_star
          [where g = demo_started and p = "''/r/a.txt''" and f = a_txt and e = False
             and w = demo_world
             and ?g' = "demo_started\<lparr>filenameMatch := ''b'', filenameRegex := demo_Compile ''b''\<rparr>"
             and ?f' = a_txt and ?p' = "''/r/a.txt''" and ?e' = False
             and fl = "demo_flags\<lparr>flag_name := ''[''\<rparr>"]
        pattern_is_regexp_except_star
          [where g = demo_started and p = "''/r/a.txt''" and f = a_txt and e = False
             and w = demo_world
             and ?g' = "demo_started\<lparr>filenameMatch := ''b'', filenameRegex := demo_Compile ''b''\<rparr>"
             and ?f' = b_txt and ?p' = "''/r/b.txt''" and ?e' = False
             and fl = "demo_flags\<lparr>flag_name := ''[''\<rparr>"]
  by (simp add: demo_started_def initial_globals_def a_txt_def b_txt_def demo_Compile_def
      demo_flags_def demo_world_def demo_readFile_def demo_md5hex_def hello_def
      word_sless_alt word_sle_eq)

section \<open>Failures on a single file\<close>






section \<open>Invariants of the pool\<close>

lemma paths_of_append: "paths_of (xs @ ys) = paths_of xs @ paths_of ys"
  by (induction xs rule: paths_of.induct) simp_all

lemma index_paths_append_path:
  "mset (concat (map snd (append_path h p m))) = mset (concat (map snd m)) + {#p#}"
  by (induction m) auto

lemma keys_of_append_path:
  "map fst (append_path h p m) = (if h \<in> set (map fst m) then map fst m else map fst m @ [h])"
  by (induction m) (auto split: if_splits)

lemma keys_append_path:
  "distinct (map fst m) \<Longrightarrow> distinct (map fst (append_path h p m))"
  by (simp add: keys_of_append_path)

lemma filed_append_path:
  "filed_by_digest w m \<Longrightarrow> readFile w p = Content bs \<Longrightarrow>
     filed_by_digest w (append_path (md5hex w bs) p m)"
  by (induction m) (auto simp add: filed_by_digest_def)

lemma scanAndHashFile_index:
  assumes "scanAndHashFile w p fo g = Inr g'"
  shows "walkFiles g' = walkFiles g \<and>
         (duplicates g' = duplicates g \<or>
          (\<exists>bs. readFile w p = Content bs \<and> duplicates g' = append_path (md5hex w bs) p (duplicates g)))"
  using assms
  by (auto simp add: scanAndHashFile_def MatchString_def Let_def split: option.splits if_splits sum.splits bool.splits file_read.splits)

lemma in_flight_update:
  "i < length ws \<Longrightarrow>
     mset (concat (map holding (map wstate (ws[i := x])))) + mset (holding (wstate (ws ! i))) =
     mset (concat (map holding (map wstate ws))) + mset (holding (wstate x))"
proof (induction ws arbitrary: i)
  case Nil then show ?case by simp
next
  case (Cons a ws) then show ?case by (cases i) auto
qed

lemma sender_send_grows:
  assumes "sender_send c = Some c'"
  shows "grows w c c'"
proof -
  from assms obtain f rest where ts: "tosend c = f # rest"
    and c': "c' = c\<lparr>tosend := rest, jobs := jobs c @ [f]\<rparr>"
    by (auto simp add: sender_send_def split: list.splits if_splits)
  have "mset (paths_of (tosend c)) = mset (paths_of [f]) + mset (paths_of rest)"
    unfolding ts by (cases f) simp_all
  then show ?thesis
    by (simp add: grows_def accounted_def in_flight_def index_paths_def paths_of_append c')
qed

lemma sender_return_grows: "sender_return c = Some c' \<Longrightarrow> grows w c c'"
  by (auto simp add: sender_return_def grows_def accounted_def in_flight_def index_paths_def
      split: if_splits)

lemma worker_ctx_done_grows:
  assumes "worker_ctx_done i c = Some c'"
  shows "grows w c c'"
proof -
  from assms have i: "i < length (workers c)" and sel: "wstate (workers c ! i) = Selecting"
    and c': "c' = c\<lparr>workers := (workers c)[i := (workers c ! i)\<lparr>wstate := Reporting (Some ContextCanceled) True\<rparr>]\<rparr>"
    by (auto simp add: worker_ctx_done_def split: if_splits)
  from in_flight_update [OF i, of "(workers c ! i)\<lparr>wstate := Reporting (Some ContextCanceled) True\<rparr>"] sel
  have "mset (in_flight c') = mset (in_flight c)"
    by (simp add: in_flight_def c')
  then show ?thesis
    by (simp add: grows_def accounted_def index_paths_def c')
qed

lemma worker_recv_grows:
  assumes "worker_recv i c = Some c'"
  shows "grows w c c'"
proof -
  from assms have i: "i < length (workers c)" and sel: "wstate (workers c ! i) = Selecting"
    by (auto simp add: worker_recv_def split: if_splits)
  note upd = in_flight_update [OF i]
  show ?thesis
  proof (cases "jobs c")
    case Nil
    with assms i sel have c': "c' = c\<lparr>workers := (workers c)[i := (workers c ! i)\<lparr>wstate := Reporting None True\<rparr>]\<rparr>"
      by (auto simp add: worker_recv_def Let_def split: if_splits)
    from upd [of "(workers c ! i)\<lparr>wstate := Reporting None True\<rparr>"] sel
    have "mset (in_flight c') = mset (in_flight c)"
      by (simp add: in_flight_def c')
    then show ?thesis
      by (simp add: grows_def accounted_def index_paths_def c')
  next
    case (Cons fo rest)
    show ?thesis
    proof (cases "case fo of None \<Rightarrow> None | Some x \<Rightarrow> (case fileinfo x of None \<Rightarrow> None | Some f \<Rightarrow> Some (path x, f))")
      case None
      with assms i sel Cons
      have c': "c' = c\<lparr>jobs := rest,
                  workers := (workers c)[i := (workers c ! i)\<lparr>wstate := Reporting (Some InvalidFileData) False,
                       stats := (stats (workers c ! i))\<lparr>errors := errors (stats (workers c ! i)) + 1\<rparr>\<rparr>]\<rparr>"
        by (auto simp add: worker_recv_def Let_def split: if_splits)
      from upd [of "(workers c ! i)\<lparr>wstate := Reporting (Some InvalidFileData) False,
                       stats := (stats (workers c ! i))\<lparr>errors := errors (stats (workers c ! i)) + 1\<rparr>\<rparr>"] sel
      have fl: "mset (in_flight c') = mset (in_flight c)"
        by (simp add: in_flight_def c')
      have "mset (paths_of rest) \<subseteq># mset (paths_of (jobs c))"
        using Cons by (cases fo) auto
      then show ?thesis
        using fl by (simp add: grows_def accounted_def index_paths_def c' subset_mset.add_mono)
    next
      case (Some pf)
      obtain p f where pf: "pf = (p, f)" by (cases pf)
      from Some pf obtain x where fo: "fo = Some x" "path x = p" "fileinfo x = Some f"
        by (auto split: option.splits)
      from assms i sel Cons Some pf
      have c': "c' = c\<lparr>jobs := rest, workers := (workers c)[i := (workers c ! i)\<lparr>wstate := Processing p f\<rparr>]\<rparr>"
        by (auto simp add: worker_recv_def Let_def split: if_splits)
      from upd [of "(workers c ! i)\<lparr>wstate := Processing p f\<rparr>"] sel
      have fl: "mset (in_flight c') = mset (in_flight c) + {#p#}"
        by (simp add: in_flight_def c')
      have "mset (paths_of (jobs c)) = mset (paths_of rest) + {#p#}"
        using Cons fo by simp
      then show ?thesis
        using fl by (simp add: grows_def accounted_def index_paths_def c')
    qed
  qed
qed

lemma worker_hash_grows:
  assumes "worker_hash w i c = Some c'" and "crashed c' = None" and "crashed c = None"
  shows "grows w c c'"
proof -
  from assms(1) have i: "i < length (workers c)"
    by (auto simp add: worker_hash_def split: if_splits)
  from assms(1) i obtain p f where st: "wstate (workers c ! i) = Processing p f"
    by (auto simp add: worker_hash_def Let_def split: wstate.splits)
  from assms i st obtain g' where scan: "scanAndHashFile w p (Some f) (shared c) = Inr g'"
    by (cases "scanAndHashFile w p (Some f) (shared c)") (auto simp add: worker_hash_def Let_def)
  define wk where
    "wk = (workers c ! i)\<lparr>wstate := Reporting None False,
            stats := (stats (workers c ! i))\<lparr>processedFiles := processedFiles (stats (workers c ! i)) + 1,
                                            totalBytes := totalBytes (stats (workers c ! i)) + Size f\<rparr>\<rparr>"
  from assms(1) i st scan have c': "c' = c\<lparr>shared := g', workers := (workers c)[i := wk]\<rparr>"
    by (simp add: worker_hash_def Let_def wk_def)
  from in_flight_update [OF i, of wk] st
  have fl: "mset (in_flight c) = mset (in_flight c') + {#p#}"
    by (simp add: in_flight_def c' wk_def)
  from scanAndHashFile_index [OF scan]
  have "duplicates g' = duplicates (shared c) \<or>
        (\<exists>bs. readFile w p = Content bs \<and> duplicates g' = append_path (md5hex w bs) p (duplicates (shared c)))"
    by simp
  then show ?thesis
  proof
    assume "duplicates g' = duplicates (shared c)"
    then show ?thesis
      using fl by (simp add: grows_def accounted_def index_paths_def c')
  next
    assume "\<exists>bs. readFile w p = Content bs \<and> duplicates g' = append_path (md5hex w bs) p (duplicates (shared c))"
    then obtain bs where bs: "readFile w p = Content bs"
      "duplicates g' = append_path (md5hex w bs) p (duplicates (shared c))" by blast
    have "accounted c' = accounted c"
      using fl by (simp add: accounted_def index_paths_def c' bs(2) index_paths_append_path)
    then show ?thesis
      using bs by (auto simp add: grows_def c')
  qed
qed

lemma worker_send_grows:
  assumes "worker_send i c = Some c'"
  shows "grows w c c'"
proof -
  from assms have i: "i < length (workers c)"
    by (auto simp add: worker_send_def split: if_splits)
  from assms i obtain v ret where st: "wstate (workers c ! i) = Reporting v ret"
    by (auto simp add: worker_send_def Let_def split: wstate.splits)
  from assms i st
  have c': "c' = c\<lparr>results := results c @ [v],
              workers := (workers c)[i := (workers c ! i)\<lparr>wstate := (if ret then Finished else Selecting)\<rparr>]\<rparr>"
    by (auto simp add: worker_send_def Let_def split: if_splits)
  from in_flight_update [OF i, of "(workers c ! i)\<lparr>wstate := (if ret then Finished else Selecting)\<rparr>"] st
  have "mset (in_flight c') = mset (in_flight c)"
    by (simp add: in_flight_def c')
  then show ?thesis
    by (simp add: grows_def accounted_def index_paths_def c')
qed

lemma collector_recv_grows: "collector_recv c = Some c' \<Longrightarrow> grows w c c'"
  by (auto simp add: collector_recv_def grows_def accounted_def in_flight_def index_paths_def
      split: list.splits if_splits option.splits)

lemma collector_return_grows: "collector_return c = Some c' \<Longrightarrow> grows w c c'"
  by (auto simp add: collector_return_def grows_def accounted_def in_flight_def index_paths_def
      split: if_splits)

lemma worker_hash_crash:
  "worker_hash w i c = Some c' \<Longrightarrow> crashed c' \<noteq> None \<Longrightarrow> crashed c = None \<Longrightarrow>
     c' = c\<lparr>crashed := crashed c'\<rparr>"
  by (auto simp add: worker_hash_def Let_def split: if_splits wstate.splits sum.splits)

lemma grows_refl_crash: "grows w c (c\<lparr>crashed := x\<rparr>)"
  by (simp add: grows_def accounted_def in_flight_def index_paths_def)

lemma step_grows:
  assumes "step w a c = Some c'"
  shows "grows w c c'"
proof -
  from assms have nc: "crashed c = None"
    by (auto simp add: step.simps split: if_splits)
  show ?thesis
  proof (cases a)
    case SenderSend with assms nc show ?thesis by (simp add: step.simps sender_send_grows)
  next
    case SenderReturn with assms nc show ?thesis by (simp add: step.simps sender_return_grows)
  next
    case (WorkerCtxDone i) with assms nc show ?thesis by (simp add: step.simps worker_ctx_done_grows)
  next
    case (WorkerRecv i) with assms nc show ?thesis by (simp add: step.simps worker_recv_grows)
  next
    case (WorkerHash i)
    with assms nc have h: "worker_hash w i c = Some c'" by (simp add: step.simps)
    show ?thesis
    proof (cases "crashed c' = None")
      case True from worker_hash_grows [OF h True nc] show ?thesis .
    next
      case False
      from worker_hash_crash [OF h False nc] have "c' = c\<lparr>crashed := crashed c'\<rparr>" .
      then show ?thesis using grows_refl_crash [of w c "crashed c'"] by simp
    qed
  next
    case (WorkerSend i) with assms nc show ?thesis by (simp add: step.simps worker_send_grows)
  next
    case CollectorRecv with assms nc show ?thesis by (simp add: step.simps collector_recv_grows)
  next
    case CollectorReturn with assms nc show ?thesis by (simp add: step.simps collector_return_grows)
  qed
qed

lemma grows_inv: "grows w c c' \<Longrightarrow> pool_inv w M c \<Longrightarrow> pool_inv w M c'"
  by (auto simp add: grows_def pool_inv_def keys_append_path filed_append_path
      intro: subset_mset.order_trans)

lemma run_inv: "run w sched c = Some c' \<Longrightarrow> pool_inv w M c \<Longrightarrow> pool_inv w M c'"
proof (induction sched arbitrary: c)
  case Nil then show ?case by simp
next
  case (Cons a sched)
  from Cons.prems(1) obtain c1 where s: "step w a c = Some c1" and r: "run w sched c1 = Some c'"
    by (auto split: option.splits)
  from grows_inv [OF step_grows [OF s] Cons.prems(2)] have "pool_inv w M c1" .
  with Cons.IH [OF r] show ?case .
qed

lemma distinct_mset_subset:
  assumes "mset xs \<subseteq># mset ys" and "distinct ys"
  shows "distinct xs"
proof -
  from assms(1) obtain zs where "mset ys = mset xs + zs"
    by (auto simp add: subset_mset.le_iff_add)
  then have "mset ys = mset (xs @ (SOME l. mset l = zs))"
    by (simp add: someI_ex [OF ex_mset])
  then have "distinct (xs @ (SOME l. mset l = zs))"
    using assms(2) mset_eq_imp_distinct_iff by blast
  then show ?thesis by simp
qed

lemma visitFile_walkFiles:
  "visitFile g p fo e = Inr g' \<Longrightarrow>
     duplicates g' = duplicates g \<and>
     mset (paths_of (walkFiles g')) \<subseteq># mset (paths_of (walkFiles g)) + {#p#}"
  by (auto simp add: visitFile_def MatchString_def Let_def paths_of_append
      split: option.splits if_splits sum.splits bool.splits)

lemma Walk_walkFiles:
  "Walk g es = Inr g' \<Longrightarrow>
     duplicates g' = duplicates g \<and>
     mset (paths_of (walkFiles g')) \<subseteq># mset (paths_of (walkFiles g)) + mset (map fst es)"
proof (induction es arbitrary: g)
  case Nil then show ?case by simp
next
  case (Cons x es)
  obtain p fo e where x: "x = (p, fo, e)" by (cases x)
  from Cons.prems x obtain g1 where v: "visitFile g p fo e = Inr g1" and r: "Walk g1 es = Inr g'"
    by (auto split: sum.splits)
  from visitFile_walkFiles [OF v] Cons.IH [OF r]
  have "duplicates g' = duplicates g"
    and a: "mset (paths_of (walkFiles g1)) \<subseteq># mset (paths_of (walkFiles g)) + {#p#}"
    and b: "mset (paths_of (walkFiles g')) \<subseteq># mset (paths_of (walkFiles g1)) + mset (map fst es)"
    by simp_all
  moreover from a have "mset (paths_of (walkFiles g1)) + mset (map fst es)
      \<subseteq># mset (paths_of (walkFiles g)) + {#p#} + mset (map fst es)"
    by (rule subset_mset.add_right_mono)
  ultimately show ?case
    using x by (auto intro: subset_mset.order_trans simp add: ac_simps)
qed

lemma startup_empty: "startup w fl = Inr g \<Longrightarrow> duplicates g = [] \<and> walkFiles g = []"
  by (auto simp add: startup_def initial_globals_def Let_def split: if_splits)

lemma pool_inv_start:
  assumes "startup w fl = Inr g1" and "Walk g1 es = Inr g2"
  shows "pool_inv w (mset (map fst es)) (start w g2)"
proof -
  from startup_empty [OF assms(1)] Walk_walkFiles [OF assms(2)]
  have "duplicates g2 = []" "mset (paths_of (walkFiles g2)) \<subseteq># mset (map fst es)"
    by simp_all
  then show ?thesis
    by (simp add: pool_inv_def start_def accounted_def in_flight_def index_paths_def
        filed_by_digest_def new_worker_def)
qed


text \<open>
  C8. From the startup on, through the walk and at every configuration the pool can
  reach under any schedule, every path occurs at most once in the whole index (the
  concatenation of all groups has no repetition), the index has one group for each
  key, and every path is filed under the digest of its own bytes. The walk is taken
  to deliver each path once, as \<open>filepath.Walk\<close> does on a tree.
\<close>

theorem index_holds_each_path_once:
  assumes "startup w fl = Inr g1"
    and "Walk g1 (filepath_Walk w (hd (args fl))) = Inr g2"
    and "distinct (map fst (filepath_Walk w (hd (args fl))))"
    and "run w sched (start w g2) = Some c"
  shows "distinct (index_paths (shared c)) \<and>
         distinct (map fst (duplicates (shared c))) \<and>
         filed_by_digest w (duplicates (shared c))"
proof -
  from run_inv [OF assms(4) pool_inv_start [OF assms(1,2)]]
  have inv: "pool_inv w (mset (map fst (filepath_Walk w (hd (args fl))))) c" .
  then have sub: "mset (index_paths (shared c)) \<subseteq># mset (map fst (filepath_Walk w (hd (args fl))))"
    unfolding pool_inv_def accounted_def
    by (metis subset_mset.order_trans mset_subset_eq_add_right)
  from sub assms(3) have "distinct (index_paths (shared c))"
    by (rule distinct_mset_subset)
  with inv show ?thesis by (simp add: pool_inv_def)
qed

text \<open>The single-thread run over \<open>/r\<close>, whose index ends with the three paths.\<close>

theorem index_holds_each_path_once_witness:
  "startup demo_world (demo_flags\<lparr>flag_singleThread := True\<rparr>) = Inr (demo_started\<lparr>singleThread := True\<rparr>) \<and>
   Walk (demo_started\<lparr>singleThread := True\<rparr>)
     (filepath_Walk demo_world (hd (args (demo_flags\<lparr>flag_singleThread := True\<rparr>)))) =
     Inr (demo_walked\<lparr>singleThread := True\<rparr>) \<and>
   distinct (map fst (filepath_Walk demo_world (hd (args (demo_flags\<lparr>flag_singleThread := True\<rparr>))))) \<and>
   run demo_world sequential_schedule (start demo_world (demo_walked\<lparr>singleThread := True\<rparr>)) =
     Some demo_sequential_final \<and>
   index_paths (shared demo_sequential_final) = [''/r/a.txt'', ''/r/b.txt'', ''/r/c.txt''] \<and>
   distinct (index_paths (shared demo_sequential_final)) \<and>
   distinct (map fst (duplicates (shared demo_sequential_final))) \<and>
   filed_by_digest demo_world (duplicates (shared demo_sequential_final))"
proof -
  have root: "hd (args (demo_flags\<lparr>flag_singleThread := True\<rparr>)) = ''/r''"
    by (simp add: demo_flags_def)
  have h2: "Walk (demo_started\<lparr>singleThread := True\<rparr>)
     (filepath_Walk demo_world (hd (args (demo_flags\<lparr>flag_singleThread := True\<rparr>)))) =
     Inr (demo_walked\<lparr>singleThread := True\<rparr>)"
    unfolding root by (rule demo_sequential_walk)
  have h3: "distinct (map fst (filepath_Walk demo_world (hd (args (demo_flags\<lparr>flag_singleThread := True\<rparr>)))))"
    unfolding root by (simp add: demo_world_def demo_Walk_def)
  have paths: "index_paths (shared demo_sequential_final) = [''/r/a.txt'', ''/r/b.txt'', ''/r/c.txt'']"
    by (simp add: index_paths_def demo_sequential_final_def demo_sequential_report_def)
  from index_holds_each_path_once [OF demo_sequential_startup h2 h3 demo_sequential_run]
  show ?thesis
    using demo_sequential_startup h2 h3 demo_sequential_run paths by simp
qed



end
